theory Spec2Isabelle
  imports Main "HOL-Library.Sublist"
begin

section \<open>Values shared by the utilities\<close>

text \<open>
  A thrown JavaScript error: its \<open>name\<close> and its \<open>message\<close>. \<open>new Error(m)\<close> is
  \<open>JsError ''Error'' m\<close>.
\<close>

datatype js_error = JsError (name: string) (message: string)

text \<open>How an awaited promise settles: with a value, or rejected with an error.\<close>

datatype 'a settled = Fulfilled 'a | Rejected js_error

text \<open>
  A template literal \<open>${n}\<close> of an integral number prints its decimal digits, with a
  leading minus sign below zero. (Numbers of magnitude \<open>10^21\<close> and more print in
  exponent form in JavaScript; the timeouts and attempt counts here are far below.)
\<close>

definition digit_char :: "nat \<Rightarrow> char" where
  "digit_char d = ''0123456789'' ! d"

function digits_of :: "nat \<Rightarrow> string" where
  "digits_of n = (if n < 10 then [digit_char n] else digits_of (n div 10) @ [digit_char (n mod 10)])"
  by pat_completeness auto
termination
  by (relation "measure id") auto

definition number_to_string :: "int \<Rightarrow> string" where
  "number_to_string i = (if i < 0 then CHR ''-'' # digits_of (nat (- i)) else digits_of (nat i))"

text \<open>
  \<open>${lastError?.message}\<close>: an undefined \<open>lastError\<close> prints as \<open>undefined\<close>.
\<close>

definition optional_message :: "js_error option \<Rightarrow> string" where
  "optional_message lastError = (case lastError of None \<Rightarrow> ''undefined'' | Some e \<Rightarrow> message e)"

section \<open>WaitUtil.retryUntilSuccess\<close>

text \<open>
  The action is a closure that is called again on every attempt; \<open>action j\<close> is how its
  \<open>j\<close>-th call settles (calls are numbered from 1, as \<open>attempt\<close> is). The log records, in
  order, every call of the action and every call of \<open>sleep\<close> with the delay it was given.
\<close>

datatype retry_event = Call nat | Sleep int

function retry_loop ::
  "(nat \<Rightarrow> 'a settled) \<Rightarrow> int \<Rightarrow> int \<Rightarrow> nat \<Rightarrow> js_error option \<Rightarrow> retry_event list
     \<Rightarrow> 'a settled \<times> retry_event list" where
  "retry_loop action maxAttempts delayMs attempt lastError log =
     (if int attempt \<le> maxAttempts then
        (case action attempt of
           Fulfilled v \<Rightarrow> (Fulfilled v, log @ [Call attempt])
         | Rejected error \<Rightarrow>
             retry_loop action maxAttempts delayMs (attempt + 1) (Some error)
               (if int attempt < maxAttempts
                then log @ [Call attempt, Sleep delayMs]
                else log @ [Call attempt]))
      else
        (Rejected (JsError ''Error''
           (''Action failed after '' @ number_to_string maxAttempts
              @ '' attempts. Last error: '' @ optional_message lastError)),
         log))"
  by pat_completeness auto
termination
  by (relation "measure (\<lambda>(action, maxAttempts, delayMs, attempt, lastError, log).
        nat (maxAttempts + 1 - int attempt))") auto

definition retryUntilSuccess ::
  "(nat \<Rightarrow> 'a settled) \<Rightarrow> int \<Rightarrow> int \<Rightarrow> 'a settled \<times> retry_event list" where
  "retryUntilSuccess action maxAttempts delayMs = retry_loop action maxAttempts delayMs 1 None []"

fun is_call :: "retry_event \<Rightarrow> bool" where
  "is_call (Call j) = True"
| "is_call (Sleep d) = False"

fun is_sleep :: "retry_event \<Rightarrow> bool" where
  "is_sleep (Call j) = False"
| "is_sleep (Sleep d) = True"

text \<open>The error a call rejected with, if it did.\<close>

fun rejection :: "'a settled \<Rightarrow> js_error option" where
  "rejection (Fulfilled v) = None"
| "rejection (Rejected e) = Some e"

text \<open>The log of \<open>j\<close> failed attempts, each followed by its sleep.\<close>

fun failed_attempts :: "int \<Rightarrow> nat \<Rightarrow> retry_event list" where
  "failed_attempts delayMs 0 = []"
| "failed_attempts delayMs (Suc j) = failed_attempts delayMs j @ [Call (Suc j), Sleep delayMs]"

definition calls_made :: "retry_event list \<Rightarrow> nat" where
  "calls_made log = length (filter is_call log)"

definition sleeps_made :: "retry_event list \<Rightarrow> nat" where
  "sleeps_made log = length (filter is_sleep log)"

section \<open>WaitUtil.waitForCondition\<close>

definition DEFAULT_TIMEOUT :: int where
  "DEFAULT_TIMEOUT = 30000"

definition POLL_INTERVAL :: nat where
  "POLL_INTERVAL = 500"

text \<open>
  The condition is a closure \<open>() => Promise<boolean> | boolean\<close>, called again on every
  poll: \<open>condition w i\<close> is what its \<open>i\<close>-th evaluation (counted from 0) yields, a
  truthy value, a falsy one, or a thrown error. Time is read from \<open>Date.now()\<close> in
  milliseconds; \<open>eval_ms w i\<close> is how long the \<open>i\<close>-th evaluation takes and
  \<open>sleep_late w i\<close> how much later than asked the timer of the \<open>i\<close>-th sleep fires
  (a \<open>setTimeout\<close> never fires early).
\<close>

datatype condition_result = Truthy | Falsy | Throws js_error

record poll_world =
  condition :: "nat \<Rightarrow> condition_result"
  eval_ms :: "nat \<Rightarrow> nat"
  sleep_late :: "nat \<Rightarrow> nat"

text \<open>
  \<open>Evaluate t\<close>: the condition is called, \<open>t\<close> ms after \<open>startTime\<close>.
  \<open>SleepFor d\<close>: \<open>sleep(d)\<close> is called.
\<close>

datatype wait_event = Evaluate nat | SleepFor nat

record wait_report =
  settled_as :: "unit settled"
  events :: "wait_event list"
  finished :: nat

function waitForCondition_loop ::
  "poll_world \<Rightarrow> int \<Rightarrow> string \<Rightarrow> nat \<Rightarrow> nat \<Rightarrow> wait_event list \<Rightarrow> wait_report" where
  "waitForCondition_loop w timeout errorMessage i elapsed log =
     (if int elapsed < timeout then
        (case condition w i of
           Truthy \<Rightarrow>
             \<lparr>settled_as = Fulfilled (), events = log @ [Evaluate elapsed],
              finished = elapsed + eval_ms w i\<rparr>
         | Throws e \<Rightarrow>
             \<lparr>settled_as = Rejected e, events = log @ [Evaluate elapsed],
              finished = elapsed + eval_ms w i\<rparr>
         | Falsy \<Rightarrow>
             waitForCondition_loop w timeout errorMessage (i + 1)
               (elapsed + eval_ms w i + POLL_INTERVAL + sleep_late w i)
               (log @ [Evaluate elapsed, SleepFor POLL_INTERVAL]))
      else
        \<lparr>settled_as = Rejected (JsError ''Error''
           (errorMessage @ '' within '' @ number_to_string timeout @ ''ms'')),
         events = log, finished = elapsed\<rparr>)"
  by pat_completeness auto
termination
  by (relation "measure (\<lambda>(w, timeout, errorMessage, i, elapsed, log).
        nat (timeout - int elapsed))") (auto simp: POLL_INTERVAL_def)

definition waitForCondition :: "poll_world \<Rightarrow> int \<Rightarrow> string \<Rightarrow> wait_report" where
  "waitForCondition w timeout errorMessage = waitForCondition_loop w timeout errorMessage 0 0 []"

fun is_evaluate :: "wait_event \<Rightarrow> bool" where
  "is_evaluate (Evaluate t) = True"
| "is_evaluate (SleepFor d) = False"

definition evaluations :: "wait_report \<Rightarrow> nat" where
  "evaluations r = length (filter is_evaluate (events r))"

definition sleeps :: "wait_report \<Rightarrow> wait_event list" where
  "sleeps r = filter (\<lambda>e. \<not> is_evaluate e) (events r)"

text \<open>
  \<open>poll_due w j\<close>: the reading of \<open>Date.now() - startTime\<close> at the loop test that guards
  evaluation \<open>j\<close>, when every earlier evaluation was falsy.
\<close>

fun poll_due :: "poll_world \<Rightarrow> nat \<Rightarrow> nat" where
  "poll_due w 0 = 0"
| "poll_due w (Suc j) = poll_due w j + eval_ms w j + POLL_INTERVAL + sleep_late w j"

text \<open>The events of the first \<open>k\<close> evaluations when all are falsy, each followed by its sleep.\<close>

fun polls :: "poll_world \<Rightarrow> nat \<Rightarrow> wait_event list" where
  "polls w 0 = []"
| "polls w (Suc k) = polls w k @ [Evaluate (poll_due w k), SleepFor POLL_INTERVAL]"

section \<open>WaitUtil.waitForConsoleMessage\<close>

text \<open>
  \<open>expectedMessage\<close> is a string or a RegExp. A RegExp is given by the text it prints as and
  by what its \<open>test\<close> answers.
\<close>

datatype expected_message = Text string | Pattern string "string \<Rightarrow> bool"

fun string_includes :: "string \<Rightarrow> string \<Rightarrow> bool" where
  "string_includes [] searchString = (searchString = [])"
| "string_includes (c # cs) searchString =
     (prefix searchString (c # cs) \<or> string_includes cs searchString)"

definition matches :: "expected_message \<Rightarrow> string \<Rightarrow> bool" where
  "matches expectedMessage text =
     (case expectedMessage of
        Text s \<Rightarrow> string_includes text s
      | Pattern source test \<Rightarrow> test text)"

definition expected_to_string :: "expected_message \<Rightarrow> string" where
  "expected_to_string expectedMessage =
     (case expectedMessage of Text s \<Rightarrow> s | Pattern source test \<Rightarrow> source)"

text \<open>
  The state the promise executor sets up and its two callbacks change: whether \<open>handler\<close>
  is subscribed to the page's \<open>console\<close> event, whether the timer is still pending, and how
  the promise has settled, if it has. Settling a settled promise changes nothing.
\<close>

record console_wait =
  handler_on :: bool
  timer_pending :: bool
  promise :: "unit settled option"

datatype page_event = ConsoleMessage string | TimerFires

definition settle :: "unit settled \<Rightarrow> console_wait \<Rightarrow> console_wait" where
  "settle r s = (if promise s = None then s\<lparr>promise := Some r\<rparr> else s)"

definition console_start :: console_wait where
  "console_start = \<lparr>handler_on = True, timer_pending = True, promise = None\<rparr>"

fun console_step :: "expected_message \<Rightarrow> int \<Rightarrow> console_wait \<Rightarrow> page_event \<Rightarrow> console_wait" where
  "console_step expectedMessage timeout s (ConsoleMessage text) =
     (if handler_on s then
        (if matches expectedMessage text
         then settle (Fulfilled ()) (s\<lparr>timer_pending := False, handler_on := False\<rparr>)
         else s)
      else s)"
| "console_step expectedMessage timeout s TimerFires =
     (if timer_pending s then
        settle (Rejected (JsError ''Error''
                  (''Console message '' @ [CHR 0x22] @ expected_to_string expectedMessage
                     @ [CHR 0x22] @ '' not found within '' @ number_to_string timeout
                     @ ''ms'')))
          (s\<lparr>timer_pending := False, handler_on := False\<rparr>)
      else s)"

text \<open>The events that end the wait: a console message that matches, or the timer.\<close>

fun completes :: "expected_message \<Rightarrow> page_event \<Rightarrow> bool" where
  "completes expectedMessage (ConsoleMessage text) = matches expectedMessage text"
| "completes expectedMessage TimerFires = True"

definition waitForConsoleMessage ::
  "expected_message \<Rightarrow> int \<Rightarrow> page_event list \<Rightarrow> console_wait" where
  "waitForConsoleMessage expectedMessage timeout evs =
     foldl (console_step expectedMessage timeout) console_start evs"

section \<open>The authenticatedPage fixture\<close>

text \<open>
  \<open>a || d\<close> on an optional string: an undefined (or null) and an empty string are both
  falsy and give \<open>d\<close>.
\<close>

definition or_default :: "'a list option \<Rightarrow> 'a list \<Rightarrow> 'a list" where
  "or_default a d = (case a of None \<Rightarrow> d | Some s \<Rightarrow> if s = [] then d else s)"

text \<open>
  The fixture awaits, in order, calls of the browser driver, of the login page object and of
  the test runner's \<open>use\<close>. Each either resolves or rejects; a rejection leaves the
  fixture function at that \<open>await\<close>, since the function has no \<open>try\<close> block.
  The world says how each call settles. The runner's \<open>use(page)\<close> runs the test body;
  \<open>use_rejects w b\<close> is how the runner settles \<open>use\<close> when the body ended as \<open>b\<close>
  (the runner is not part of this repository).
\<close>

datatype fixture_call =
  NewContext | NewPage | Goto | Login string string | WaitForURL | Use | ContextClose

datatype body_outcome = BodyPassed | BodyThrew js_error

record fixture_world =
  TEST_USERNAME :: "string option"
  TEST_PASSWORD :: "string option"
  newContext_rejects :: "js_error option"
  newPage_rejects :: "js_error option"
  goto_rejects :: "js_error option"
  login_rejects :: "js_error option"
  waitForURL_rejects :: "js_error option"
  body :: body_outcome
  use_rejects :: "body_outcome \<Rightarrow> js_error option"
  close_rejects :: "js_error option"

definition await ::
  "fixture_call \<Rightarrow> js_error option \<Rightarrow> (fixture_call list \<Rightarrow> unit settled \<times> fixture_call list)
     \<Rightarrow> fixture_call list \<Rightarrow> unit settled \<times> fixture_call list" where
  "await c outcome rest log =
     (case outcome of
        Some e \<Rightarrow> (Rejected e, log @ [c])
      | None \<Rightarrow> rest (log @ [c]))"

definition authenticatedPage :: "fixture_world \<Rightarrow> unit settled \<times> fixture_call list" where
  "authenticatedPage w =
     (await NewContext (newContext_rejects w)
     (await NewPage (newPage_rejects w)
     (await Goto (goto_rejects w)
     (let username = or_default (TEST_USERNAME w) ''testuser'';
          password = or_default (TEST_PASSWORD w) ''testpass123''
      in
      await (Login username password) (login_rejects w)
     (await WaitForURL (waitForURL_rejects w)
     (await Use (use_rejects w (body w))
     (await ContextClose (close_rejects w)
     (\<lambda>log. (Fulfilled (), log)))))))))
     []"

text \<open>Login has reached the Ready state: every step before \<open>use(page)\<close> resolved.\<close>

definition reaches_ready :: "fixture_world \<Rightarrow> bool" where
  "reaches_ready w =
     (newContext_rejects w = None \<and> newPage_rejects w = None \<and> goto_rejects w = None
      \<and> login_rejects w = None \<and> waitForURL_rejects w = None)"

section \<open>HeaderComponent.getNotificationCount\<close>

text \<open>
  A JavaScript string is a sequence of UTF-16 code units; the badge text is kept as the list
  of their values. \<open>utf16_of\<close> gives the code units of an ASCII literal.
\<close>

type_synonym utf16 = "nat list"

definition utf16_of :: "string \<Rightarrow> utf16" where
  "utf16_of s = map of_char s"

text \<open>
  A Number that \<open>parseInt\<close> can return. \<open>Num i\<close> is the integer \<open>i\<close>, used only where the
  Number holds \<open>i\<close> exactly (magnitude at most \<open>2^53\<close>). \<open>NegZero\<close> is \<open>-0\<close>.
  \<open>Nearest i\<close> stands for the Number value of an integer \<open>i\<close> of larger magnitude: the
  double that the language's rounding picks for \<open>i\<close> (or an infinity), which is not computed
  here.
\<close>

datatype js_number = Num int | NegZero | Nearest int | NaN

text \<open>
  White space and line terminators of the language: TAB, LF, VT, FF, CR, the space
  separators (U+0020, U+00A0, U+1680, U+2000 to U+200A, U+202F, U+205F, U+3000), the line and
  paragraph separators U+2028 and U+2029, and U+FEFF.
\<close>

definition is_white_space :: "nat \<Rightarrow> bool" where
  "is_white_space c =
     (c \<in> set [0x09, 0x0A, 0x0B, 0x0C, 0x0D, 0x20, 0xA0, 0x1680, 0x2028, 0x2029, 0x202F,
               0x205F, 0x3000, 0xFEFF]
      \<or> (0x2000 \<le> c \<and> c \<le> 0x200A))"

text \<open>The value of a digit: \<open>0\<close> to \<open>9\<close>, then \<open>a\<close> to \<open>z\<close> or \<open>A\<close> to \<open>Z\<close> for 10 to 35.\<close>

definition digit_value :: "nat \<Rightarrow> nat option" where
  "digit_value c =
     (if 48 \<le> c \<and> c \<le> 57 then Some (c - 48)
      else if 97 \<le> c \<and> c \<le> 122 then Some (c - 87)
      else if 65 \<le> c \<and> c \<le> 90 then Some (c - 55)
      else None)"

definition in_radix :: "nat \<Rightarrow> nat \<Rightarrow> bool" where
  "in_radix R c = (case digit_value c of None \<Rightarrow> False | Some d \<Rightarrow> d < R)"

definition radix_value :: "nat \<Rightarrow> utf16 \<Rightarrow> int" where
  "radix_value R Z =
     foldl (\<lambda>acc c. acc * int R + (case digit_value c of None \<Rightarrow> 0 | Some d \<Rightarrow> int d)) 0 Z"

text \<open>The Number for \<open>sign \<times> mathInt\<close>: a zero keeps the sign.\<close>

definition number_value :: "int \<Rightarrow> int \<Rightarrow> js_number" where
  "number_value sign mathInt =
     (if mathInt = 0 then (if sign < 0 then NegZero else Num 0)
      else if mathInt \<le> 2 ^ 53 then Num (sign * mathInt)
      else Nearest (sign * mathInt))"

text \<open>
  \<open>parseInt(string)\<close> with no radix, step by step after the language standard: leading
  white space is trimmed, a sign is read and removed, a \<open>0x\<close> or \<open>0X\<close> prefix is removed
  and selects radix 16 (radix 10 otherwise), and the longest run of digits of the radix is
  read; no digit gives \<open>NaN\<close>.
\<close>

definition parseInt :: "utf16 \<Rightarrow> js_number" where
  "parseInt string =
     (let S = dropWhile is_white_space string;
          sign = (if S \<noteq> [] \<and> hd S = 0x2D then - 1 else 1 :: int);
          S1 = (if S \<noteq> [] \<and> (hd S = 0x2B \<or> hd S = 0x2D) then tl S else S);
          hex = (prefix (utf16_of ''0x'') S1 \<or> prefix (utf16_of ''0X'') S1);
          R = (if hex then 16 else 10);
          S2 = (if hex then drop 2 S1 else S1);
          Z = takeWhile (in_radix R) S2
      in if Z = [] then NaN else number_value sign (radix_value R Z))"

text \<open>
  The badge locator answers two driver calls: \<open>isVisible()\<close> and \<open>textContent()\<close>
  (a string or \<open>null\<close>). Either may reject. The log records which calls were made.
\<close>

record badge =
  isVisible :: "bool settled"
  textContent :: "utf16 option settled"

datatype badge_call = IsVisible | TextContent

definition getNotificationCount :: "badge \<Rightarrow> js_number settled \<times> badge_call list" where
  "getNotificationCount notificationBadge =
     (case isVisible notificationBadge of
        Rejected e \<Rightarrow> (Rejected e, [IsVisible])
      | Fulfilled visible \<Rightarrow>
          if \<not> visible then (Fulfilled (Num 0), [IsVisible])
          else
            (case textContent notificationBadge of
               Rejected e \<Rightarrow> (Rejected e, [IsVisible, TextContent])
             | Fulfilled text \<Rightarrow>
                 (Fulfilled (parseInt (or_default text (utf16_of ''0''))),
                  [IsVisible, TextContent])))"

section \<open>Properties of retryUntilSuccess\<close>

declare retry_loop.simps [simp del]
declare digits_of.simps [simp del]

lemma digits_of_small: "n < 10 \<Longrightarrow> digits_of n = [digit_char n]"
  by (simp add: digits_of.simps)

lemma retry_loop_exhausted:
  "maxAttempts < int attempt \<Longrightarrow>
   retry_loop action maxAttempts delayMs attempt lastError log =
     (Rejected (JsError ''Error''
        (''Action failed after '' @ number_to_string maxAttempts
           @ '' attempts. Last error: '' @ optional_message lastError)), log)"
  by (subst retry_loop.simps) simp

text \<open>
  C9. With \<open>maxAttempts \<le> 0\<close> the loop body never runs: the action is not called, nothing
  sleeps, and the call still rejects with the usual message, built from the given count and
  an undefined last error.
\<close>

theorem retryUntilSuccess_nonpositive:
  "maxAttempts \<le> 0 \<Longrightarrow>
   retryUntilSuccess action maxAttempts delayMs =
     (Rejected (JsError ''Error''
        (''Action failed after '' @ number_to_string maxAttempts
           @ '' attempts. Last error: undefined'')), [])"
  by (simp add: retryUntilSuccess_def retry_loop_exhausted optional_message_def)

theorem retryUntilSuccess_nonpositive_witness:
  "retryUntilSuccess (\<lambda>j. Fulfilled (7 :: nat)) (- 2) 1000 =
     (Rejected (JsError ''Error'' ''Action failed after -2 attempts. Last error: undefined''), [])"
  using retryUntilSuccess_nonpositive [of "- 2" "\<lambda>j. Fulfilled (7 :: nat)" 1000]
  by (simp add: number_to_string_def digits_of_small digit_char_def)

lemma calls_made_failed_attempts: "calls_made (failed_attempts d j) = j"
  by (induction j) (simp_all add: calls_made_def)

lemma sleeps_made_failed_attempts: "sleeps_made (failed_attempts d j) = j"
  by (induction j) (simp_all add: sleeps_made_def)

lemma retry_loop_failures:
  assumes "\<forall>i. 1 \<le> i \<and> i \<le> j \<longrightarrow> rejection (action i) \<noteq> None"
    and "int j < maxAttempts"
  shows "retry_loop action maxAttempts delayMs 1 None [] =
         retry_loop action maxAttempts delayMs (Suc j)
           (if j = 0 then None else rejection (action j)) (failed_attempts delayMs j)"
  using assms
proof (induction j)
  case 0
  show ?case by simp
next
  case (Suc j)
  from Suc.prems have rej: "rejection (action (Suc j)) \<noteq> None" by simp
  then obtain e where e: "action (Suc j) = Rejected e"
    by (cases "action (Suc j)") auto
  from Suc.prems have lt: "int (Suc j) < maxAttempts" by simp
  have "retry_loop action maxAttempts delayMs 1 None [] =
        retry_loop action maxAttempts delayMs (Suc j)
          (if j = 0 then None else rejection (action j)) (failed_attempts delayMs j)"
    using Suc.IH Suc.prems by simp
  also have "\<dots> = retry_loop action maxAttempts delayMs (Suc (Suc j)) (Some e)
          (failed_attempts delayMs (Suc j))"
    using lt e by (subst retry_loop.simps) simp
  finally show ?case using e by simp
qed



lemma retry_loop_last_attempt:
  assumes "1 \<le> k" and "int k \<le> maxAttempts"
    and "\<forall>i. 1 \<le> i \<and> i < k \<longrightarrow> rejection (action i) \<noteq> None"
  shows "retryUntilSuccess action maxAttempts delayMs =
         retry_loop action maxAttempts delayMs k
           (if k = 1 then None else rejection (action (k - 1))) (failed_attempts delayMs (k - 1))"
proof -
  obtain j where k: "k = Suc j" using assms(1) by (cases k) auto
  have a: "\<forall>i. 1 \<le> i \<and> i \<le> j \<longrightarrow> rejection (action i) \<noteq> None"
    using assms(3) k by auto
  have b: "int j < maxAttempts" using assms(2) k by simp
  have c: "(if k = 1 then None else rejection (action (k - 1))) =
           (if j = 0 then None else rejection (action j))"
    using k by simp
  show ?thesis
    unfolding retryUntilSuccess_def c retry_loop_failures [OF a b]
    using k by simp
qed


lemma retry_succeeds_at:
  assumes "1 \<le> k" and "int k \<le> maxAttempts"
    and "\<forall>i. 1 \<le> i \<and> i < k \<longrightarrow> rejection (action i) \<noteq> None"
    and "action k = Fulfilled v"
  shows "retryUntilSuccess action maxAttempts delayMs =
         (Fulfilled v, failed_attempts delayMs (k - 1) @ [Call k])"
proof -
  have "retry_loop action maxAttempts delayMs k
           (if k = 1 then None else rejection (action (k - 1))) (failed_attempts delayMs (k - 1))
        = (Fulfilled v, failed_attempts delayMs (k - 1) @ [Call k])"
    using assms(2,4) by (subst retry_loop.simps) simp
  then show ?thesis
    using retry_loop_last_attempt [OF assms(1,2,3)] by simp
qed

lemma retry_exhausted_at:
  assumes "1 \<le> k" and "int k = maxAttempts"
    and "\<forall>i. 1 \<le> i \<and> i \<le> k \<longrightarrow> rejection (action i) \<noteq> None"
  shows "retryUntilSuccess action maxAttempts delayMs =
         (Rejected (JsError ''Error''
            (''Action failed after '' @ number_to_string maxAttempts
               @ '' attempts. Last error: '' @ optional_message (rejection (action k)))),
          failed_attempts delayMs (k - 1) @ [Call k])"
proof -
  from assms(1,3) have "rejection (action k) \<noteq> None" by simp
  then obtain e where e: "action k = Rejected e" by (cases "action k") auto
  have prev: "\<forall>i. 1 \<le> i \<and> i < k \<longrightarrow> rejection (action i) \<noteq> None"
    using assms(3) by simp
  have le: "int k \<le> maxAttempts" using assms(2) by simp
  have ex: "maxAttempts < int (k + 1)" using assms(2) by simp
  have "retry_loop action maxAttempts delayMs k
           (if k = 1 then None else rejection (action (k - 1))) (failed_attempts delayMs (k - 1))
        = retry_loop action maxAttempts delayMs (k + 1) (Some e)
            (failed_attempts delayMs (k - 1) @ [Call k])"
    using assms(2) e by (subst retry_loop.simps) simp
  also have "\<dots> = (Rejected (JsError ''Error''
            (''Action failed after '' @ number_to_string maxAttempts
               @ '' attempts. Last error: '' @ optional_message (Some e))),
          failed_attempts delayMs (k - 1) @ [Call k])"
    by (rule retry_loop_exhausted [OF ex])
  finally show ?thesis
    using retry_loop_last_attempt [OF assms(1) le prev] e by simp
qed

text \<open>
  C5. Let attempt \<open>k\<close> (with \<open>1 \<le> k \<le> maxAttempts\<close>) be the first that succeeds, or let
  \<open>k = maxAttempts\<close> when every attempt fails. Then the action is called exactly \<open>k\<close>
  times and \<open>sleep\<close> exactly \<open>k - 1\<close> times, once after each attempt but the last: the
  log is \<open>k - 1\<close> pairs of a call and a sleep followed by the \<open>k\<close>-th call, so its last
  event is a call. A successful \<open>k\<close>-th attempt's value is the result. With
  \<open>maxAttempts = 1\<close> nothing sleeps.
\<close>

theorem retryUntilSuccess_attempts:
  assumes "1 \<le> k" and "int k \<le> maxAttempts"
    and "\<forall>j. 1 \<le> j \<and> j < k \<longrightarrow> rejection (action j) \<noteq> None"
    and "rejection (action k) = None \<or> int k = maxAttempts"
  shows "snd (retryUntilSuccess action maxAttempts delayMs)
           = failed_attempts delayMs (k - 1) @ [Call k]
       \<and> calls_made (snd (retryUntilSuccess action maxAttempts delayMs)) = k
       \<and> sleeps_made (snd (retryUntilSuccess action maxAttempts delayMs)) = k - 1
       \<and> last (snd (retryUntilSuccess action maxAttempts delayMs)) = Call k
       \<and> (\<forall>v. action k = Fulfilled v
             \<longrightarrow> fst (retryUntilSuccess action maxAttempts delayMs) = Fulfilled v)
       \<and> (maxAttempts = 1
             \<longrightarrow> sleeps_made (snd (retryUntilSuccess action maxAttempts delayMs)) = 0)"
proof -
  have log: "snd (retryUntilSuccess action maxAttempts delayMs)
               = failed_attempts delayMs (k - 1) @ [Call k]"
  proof (cases "action k")
    case (Fulfilled v)
    then show ?thesis using retry_succeeds_at [OF assms(1,2,3)] by simp
  next
    case (Rejected e)
    with assms(4) have eq: "int k = maxAttempts" by simp
    have all: "\<forall>i. 1 \<le> i \<and> i \<le> k \<longrightarrow> rejection (action i) \<noteq> None"
      using assms(3) Rejected by (auto simp: le_less)
    show ?thesis using retry_exhausted_at [OF assms(1) eq all] by simp
  qed
  have calls: "calls_made (failed_attempts delayMs (k - 1) @ [Call k]) = k"
    using assms(1) calls_made_failed_attempts [of delayMs "k - 1"]
    by (simp add: calls_made_def)
  have sleeps: "sleeps_made (failed_attempts delayMs (k - 1) @ [Call k]) = k - 1"
    using sleeps_made_failed_attempts [of delayMs "k - 1"]
    by (simp add: sleeps_made_def)
  have res: "\<forall>v. action k = Fulfilled v
               \<longrightarrow> fst (retryUntilSuccess action maxAttempts delayMs) = Fulfilled v"
    using retry_succeeds_at [OF assms(1,2,3)] by simp
  have one: "maxAttempts = 1
      \<longrightarrow> sleeps_made (failed_attempts delayMs (k - 1) @ [Call k]) = 0"
    using assms(1,2) sleeps by auto
  have final: "last (failed_attempts delayMs (k - 1) @ [Call k]) = Call k"
    by simp
  show ?thesis
    unfolding log using calls sleeps res one final by blast
qed

theorem retryUntilSuccess_attempts_witness:
  "snd (retryUntilSuccess
          (\<lambda>j. if j < 3 then Rejected (JsError ''Error'' ''flaky'') else Fulfilled (5 :: nat)) 3 50)
     = [Call 1, Sleep 50, Call 2, Sleep 50, Call 3]
   \<and> fst (retryUntilSuccess
          (\<lambda>j. if j < 3 then Rejected (JsError ''Error'' ''flaky'') else Fulfilled (5 :: nat)) 3 50)
     = Fulfilled 5"
  using retryUntilSuccess_attempts
    [of 3 3 "\<lambda>j. if j < 3 then Rejected (JsError ''Error'' ''flaky'') else Fulfilled (5 :: nat)" 50]
  by (simp add: eval_nat_numeral)

text \<open>
  C6. When all \<open>n \<ge> 1\<close> attempts fail, the call rejects with a new \<open>Error\<close> whose message
  holds the attempt count \<open>n\<close> and the message of the error of attempt \<open>n\<close>, the last one.
  The errors of the earlier attempts are dropped: two actions that fail \<open>n\<close> times and agree
  on the last attempt surface the same failure.
\<close>

theorem retryUntilSuccess_exhausted:
  assumes "1 \<le> n"
    and "\<forall>j. 1 \<le> j \<and> j \<le> n \<longrightarrow> rejection (action j) \<noteq> None"
  shows "fst (retryUntilSuccess action (int n) delayMs)
           = Rejected (JsError ''Error''
               (''Action failed after '' @ number_to_string (int n)
                  @ '' attempts. Last error: '' @ optional_message (rejection (action n))))
       \<and> (\<forall>other. (\<forall>j. 1 \<le> j \<and> j \<le> n \<longrightarrow> rejection (other j) \<noteq> None)
                    \<and> other n = action n
             \<longrightarrow> fst (retryUntilSuccess other (int n) delayMs)
                   = fst (retryUntilSuccess action (int n) delayMs))"
proof -
  have one: "fst (retryUntilSuccess f (int n) delayMs)
           = Rejected (JsError ''Error''
               (''Action failed after '' @ number_to_string (int n)
                  @ '' attempts. Last error: '' @ optional_message (rejection (f n))))"
    if "\<forall>j. 1 \<le> j \<and> j \<le> n \<longrightarrow> rejection (f j) \<noteq> None" for f :: "nat \<Rightarrow> 'a settled"
    using retry_exhausted_at [OF assms(1) refl that, of delayMs] by simp
  show ?thesis
    using one [OF assms(2)] one by simp
qed

theorem retryUntilSuccess_exhausted_witness:
  "fst (retryUntilSuccess
          (\<lambda>j. (Rejected (JsError ''Error'' (''failure '' @ digits_of j)) :: nat settled)) 3 50)
     = Rejected (JsError ''Error'' ''Action failed after 3 attempts. Last error: failure 3'')"
  using retryUntilSuccess_exhausted
    [of 3 "\<lambda>j. (Rejected (JsError ''Error'' (''failure '' @ digits_of j)) :: nat settled)" 50]
  by (simp add: number_to_string_def digits_of_small digit_char_def optional_message_def)

section \<open>Properties of waitForCondition\<close>

declare waitForCondition_loop.simps [simp del]

lemma poll_due_mono: "j \<le> k \<Longrightarrow> poll_due w j \<le> poll_due w k"
  by (induction k) (auto simp: le_Suc_eq)

lemma evaluations_polls: "length (filter is_evaluate (polls w k)) = k"
  by (induction k) simp_all

lemma sleeps_polls:
  "filter (\<lambda>e. \<not> is_evaluate e) (polls w k) = replicate k (SleepFor POLL_INTERVAL)"
  by (induction k) (simp_all add: replicate_append_same)

lemma wait_loop_falsy_prefix:
  assumes "\<forall>j<k. condition w j = Falsy"
    and "\<forall>j<k. int (poll_due w j) < timeout"
  shows "waitForCondition w timeout m =
         waitForCondition_loop w timeout m k (poll_due w k) (polls w k)"
  using assms
proof (induction k)
  case 0
  show ?case by (simp add: waitForCondition_def)
next
  case (Suc k)
  have "waitForCondition w timeout m =
        waitForCondition_loop w timeout m k (poll_due w k) (polls w k)"
    using Suc.IH Suc.prems by simp
  also have "\<dots> = waitForCondition_loop w timeout m (Suc k) (poll_due w (Suc k)) (polls w (Suc k))"
    using Suc.prems by (subst waitForCondition_loop.simps) simp
  finally show ?case .
qed

lemma wait_reaches_evaluation:
  assumes "\<forall>j<k. condition w j = Falsy"
    and "int (poll_due w k) < timeout"
  shows "waitForCondition w timeout m =
         waitForCondition_loop w timeout m k (poll_due w k) (polls w k)"
proof (rule wait_loop_falsy_prefix [OF assms(1)])
  show "\<forall>j<k. int (poll_due w j) < timeout"
  proof (intro allI impI)
    fix j assume "j < k"
    then have "poll_due w j \<le> poll_due w k" by (simp add: poll_due_mono)
    with assms(2) show "int (poll_due w j) < timeout" by simp
  qed
qed

lemma wait_truthy_at:
  assumes "\<forall>j<k. condition w j = Falsy" and "condition w k = Truthy"
    and "int (poll_due w k) < timeout"
  shows "waitForCondition w timeout m =
         \<lparr>settled_as = Fulfilled (), events = polls w k @ [Evaluate (poll_due w k)],
          finished = poll_due w k + eval_ms w k\<rparr>"
  unfolding wait_reaches_evaluation [OF assms(1,3)]
  using assms(2,3) by (subst waitForCondition_loop.simps) simp

lemma wait_throws_at:
  assumes "\<forall>j<k. condition w j = Falsy" and "condition w k = Throws e"
    and "int (poll_due w k) < timeout"
  shows "waitForCondition w timeout m =
         \<lparr>settled_as = Rejected e, events = polls w k @ [Evaluate (poll_due w k)],
          finished = poll_due w k + eval_ms w k\<rparr>"
  unfolding wait_reaches_evaluation [OF assms(1,3)]
  using assms(2,3) by (subst waitForCondition_loop.simps) simp

lemma wait_loop_never_true:
  assumes "\<forall>j. condition w j = Falsy"
  shows "settled_as (waitForCondition_loop w timeout m i elapsed log) =
           Rejected (JsError ''Error'' (m @ '' within '' @ number_to_string timeout @ ''ms''))
         \<and> timeout \<le> int (finished (waitForCondition_loop w timeout m i elapsed log))"
  using assms
proof (induction w timeout m i elapsed log rule: waitForCondition_loop.induct)
  case (1 w timeout errorMessage i elapsed log)
  show ?case
  proof (cases "int elapsed < timeout")
    case True
    have f: "condition w i = Falsy" using "1.prems" by simp
    show ?thesis
      using True f "1.IH" [OF True f "1.prems"]
      by (subst (1 2) waitForCondition_loop.simps) simp
  next
    case False
    then show ?thesis
      by (subst (1 2) waitForCondition_loop.simps) simp
  qed
qed

text \<open>
  C2 (as the code has it). The loop tests the deadline before it evaluates the condition, so
  with \<open>timeout = 0\<close> the condition is not evaluated at all: the call makes no evaluation
  and no sleep and rejects at once with the timeout message, whatever the condition would
  have answered.
\<close>

theorem waitForCondition_zero_budget:
  "events (waitForCondition w 0 errorMessage) = []
   \<and> evaluations (waitForCondition w 0 errorMessage) = 0
   \<and> settled_as (waitForCondition w 0 errorMessage)
       = Rejected (JsError ''Error'' (errorMessage @ '' within 0ms''))"
  by (simp add: waitForCondition_def evaluations_def waitForCondition_loop.simps
        number_to_string_def digits_of_small digit_char_def)

theorem waitForCondition_zero_budget_witness:
  "events (waitForCondition
      \<lparr>condition = (\<lambda>i. Truthy), eval_ms = (\<lambda>i. 0), sleep_late = (\<lambda>i. 0)\<rparr> 0 ''Condition not met'')
     = []
   \<and> settled_as (waitForCondition
      \<lparr>condition = (\<lambda>i. Truthy), eval_ms = (\<lambda>i. 0), sleep_late = (\<lambda>i. 0)\<rparr> 0 ''Condition not met'')
     = Rejected (JsError ''Error'' ''Condition not met within 0ms'')"
  using waitForCondition_zero_budget
    [of "\<lparr>condition = (\<lambda>i. Truthy), eval_ms = (\<lambda>i. 0), sleep_late = (\<lambda>i. 0)\<rparr>"
        "''Condition not met''"]
  by simp

text \<open>
  Counterexample to C2 as stated (one evaluation at \<open>timeout = 0\<close>): for a condition that
  is always falsy the number of evaluations is 0, not 1.
\<close>

theorem waitForCondition_zero_budget_counterexample:
  "evaluations (waitForCondition
      \<lparr>condition = (\<lambda>i. Falsy), eval_ms = (\<lambda>i. 0), sleep_late = (\<lambda>i. 0)\<rparr> 0
      ''Condition not met'') = 0
   \<and> evaluations (waitForCondition
      \<lparr>condition = (\<lambda>i. Falsy), eval_ms = (\<lambda>i. 0), sleep_late = (\<lambda>i. 0)\<rparr> 0
      ''Condition not met'') \<noteq> 1"
  by (simp add: waitForCondition_def evaluations_def waitForCondition_loop.simps)

text \<open>
  C3 (as the code has it). When the condition never evaluates truthy (and never throws), the
  call rejects with a plain \<open>Error\<close> whose message is the caller's \<open>errorMessage\<close>
  followed by \<open>within <timeout>ms\<close>: it names what was expected and the timeout that was
  asked for, not the time that elapsed nor what was last observed. The rejection comes no
  earlier than \<open>timeout\<close> ms after the start.
\<close>

theorem waitForCondition_never_true:
  assumes "\<forall>j. condition w j = Falsy"
  shows "settled_as (waitForCondition w timeout errorMessage)
           = Rejected (JsError ''Error''
               (errorMessage @ '' within '' @ number_to_string timeout @ ''ms''))
       \<and> timeout \<le> int (finished (waitForCondition w timeout errorMessage))"
  unfolding waitForCondition_def by (rule wait_loop_never_true [OF assms])

theorem waitForCondition_never_true_witness:
  "settled_as (waitForCondition
      \<lparr>condition = (\<lambda>i. Falsy), eval_ms = (\<lambda>i. 2), sleep_late = (\<lambda>i. 0)\<rparr> 1200
      ''Condition not met'')
     = Rejected (JsError ''Error'' ''Condition not met within 1200ms'')"
proof -
  have "number_to_string 1200 = ''1200''" by code_simp
  then show ?thesis
    using waitForCondition_never_true
      [of "\<lparr>condition = (\<lambda>i. Falsy), eval_ms = (\<lambda>i. 2), sleep_late = (\<lambda>i. 0)\<rparr>" 1200
          "''Condition not met''"]
    by simp
qed

text \<open>
  Counterexample to C3 as stated (the error carries the elapsed time): two runs with timeout
  600 that end 1000 ms and 1080 ms after the start reject with the same error, whose message
  names 600.
\<close>

theorem waitForCondition_timeout_error_counterexample:
  "settled_as (waitForCondition
      \<lparr>condition = (\<lambda>i. Falsy), eval_ms = (\<lambda>i. 0), sleep_late = (\<lambda>i. 0)\<rparr> 600
      ''Condition not met'')
     = Rejected (JsError ''Error'' ''Condition not met within 600ms'')
   \<and> finished (waitForCondition
      \<lparr>condition = (\<lambda>i. Falsy), eval_ms = (\<lambda>i. 0), sleep_late = (\<lambda>i. 0)\<rparr> 600
      ''Condition not met'') = 1000
   \<and> settled_as (waitForCondition
      \<lparr>condition = (\<lambda>i. Falsy), eval_ms = (\<lambda>i. 0), sleep_late = (\<lambda>i. 40)\<rparr> 600
      ''Condition not met'')
     = Rejected (JsError ''Error'' ''Condition not met within 600ms'')
   \<and> finished (waitForCondition
      \<lparr>condition = (\<lambda>i. Falsy), eval_ms = (\<lambda>i. 0), sleep_late = (\<lambda>i. 40)\<rparr> 600
      ''Condition not met'') = 1080"
  by code_simp

text \<open>
  C4 (as the code has it). Let the \<open>k\<close>-th evaluation be the first truthy one, and let it
  happen within the budget (the loop test before it reads less than \<open>timeout\<close>). Then the
  call resolves right after that evaluation: exactly \<open>k\<close> evaluations, exactly \<open>k - 1\<close>
  sleeps, each of \<open>POLL_INTERVAL\<close>, none after the \<open>k\<close>-th evaluation. It returns when
  the \<open>k\<close>-th evaluation ends; counted from the start of evaluation \<open>k - 1\<close>, the last
  moment the condition was seen falsy, that is one poll interval plus the time the two
  evaluations take and the lateness of the timer, and so more than one poll interval
  whenever any of these is not zero.
\<close>

theorem waitForCondition_first_true:
  assumes "1 \<le> k"
    and "\<forall>j. j < k - 1 \<longrightarrow> condition w j = Falsy"
    and "condition w (k - 1) = Truthy"
    and "int (poll_due w (k - 1)) < timeout"
  shows "settled_as (waitForCondition w timeout errorMessage) = Fulfilled ()
       \<and> events (waitForCondition w timeout errorMessage)
           = polls w (k - 1) @ [Evaluate (poll_due w (k - 1))]
       \<and> evaluations (waitForCondition w timeout errorMessage) = k
       \<and> sleeps (waitForCondition w timeout errorMessage)
           = replicate (k - 1) (SleepFor POLL_INTERVAL)
       \<and> finished (waitForCondition w timeout errorMessage)
           = poll_due w (k - 1) + eval_ms w (k - 1)
       \<and> (2 \<le> k \<longrightarrow>
            finished (waitForCondition w timeout errorMessage)
              = poll_due w (k - 2) + POLL_INTERVAL
                  + (eval_ms w (k - 2) + sleep_late w (k - 2) + eval_ms w (k - 1)))"
proof -
  have falsy: "\<forall>j<k - 1. condition w j = Falsy" using assms(2) by simp
  note r = wait_truthy_at [OF falsy assms(3,4), of errorMessage]
  have gap: "2 \<le> k \<longrightarrow>
      poll_due w (k - 1) + eval_ms w (k - 1)
        = poll_due w (k - 2) + POLL_INTERVAL
            + (eval_ms w (k - 2) + sleep_late w (k - 2) + eval_ms w (k - 1))"
  proof
    assume "2 \<le> k"
    then obtain n where n: "k = Suc (Suc n)" by (cases k) (auto simp: Suc_le_eq gr0_conv_Suc)
    show "poll_due w (k - 1) + eval_ms w (k - 1)
        = poll_due w (k - 2) + POLL_INTERVAL
            + (eval_ms w (k - 2) + sleep_late w (k - 2) + eval_ms w (k - 1))"
      unfolding n by simp
  qed
  show ?thesis
    unfolding r using assms(1) gap
    by (simp add: evaluations_def sleeps_def evaluations_polls sleeps_polls)
qed

theorem waitForCondition_first_true_witness:
  "settled_as (waitForCondition
      \<lparr>condition = (\<lambda>i. if i = 2 then Truthy else Falsy), eval_ms = (\<lambda>i. 3),
       sleep_late = (\<lambda>i. 1)\<rparr> 2000 ''Condition not met'') = Fulfilled ()
   \<and> evaluations (waitForCondition
      \<lparr>condition = (\<lambda>i. if i = 2 then Truthy else Falsy), eval_ms = (\<lambda>i. 3),
       sleep_late = (\<lambda>i. 1)\<rparr> 2000 ''Condition not met'') = 3
   \<and> sleeps (waitForCondition
      \<lparr>condition = (\<lambda>i. if i = 2 then Truthy else Falsy), eval_ms = (\<lambda>i. 3),
       sleep_late = (\<lambda>i. 1)\<rparr> 2000 ''Condition not met'') = [SleepFor 500, SleepFor 500]
   \<and> finished (waitForCondition
      \<lparr>condition = (\<lambda>i. if i = 2 then Truthy else Falsy), eval_ms = (\<lambda>i. 3),
       sleep_late = (\<lambda>i. 1)\<rparr> 2000 ''Condition not met'') = 1011"
  using waitForCondition_first_true
    [of 3 "\<lparr>condition = (\<lambda>i. if i = 2 then Truthy else Falsy), eval_ms = (\<lambda>i. 3),
            sleep_late = (\<lambda>i. 1)\<rparr>" 2000 "''Condition not met''"]
  by (simp add: eval_nat_numeral POLL_INTERVAL_def)

text \<open>
  Counterexample to C4 as stated (the return overshoots by at most one poll interval): the
  condition is falsy at time 0 and evaluates at once, the timer of the sleep fires 40 ms
  late, and the second evaluation is truthy. The call returns 540 ms after the falsy
  observation, more than \<open>POLL_INTERVAL\<close>.
\<close>

theorem waitForCondition_overshoot_counterexample:
  "settled_as (waitForCondition
      \<lparr>condition = (\<lambda>i. if i = 1 then Truthy else Falsy), eval_ms = (\<lambda>i. 0),
       sleep_late = (\<lambda>i. 40)\<rparr> 2000 ''Condition not met'') = Fulfilled ()
   \<and> events (waitForCondition
      \<lparr>condition = (\<lambda>i. if i = 1 then Truthy else Falsy), eval_ms = (\<lambda>i. 0),
       sleep_late = (\<lambda>i. 40)\<rparr> 2000 ''Condition not met'')
     = [Evaluate 0, SleepFor 500, Evaluate 540]
   \<and> finished (waitForCondition
      \<lparr>condition = (\<lambda>i. if i = 1 then Truthy else Falsy), eval_ms = (\<lambda>i. 0),
       sleep_late = (\<lambda>i. 40)\<rparr> 2000 ''Condition not met'') = 540
   \<and> \<not> finished (waitForCondition
      \<lparr>condition = (\<lambda>i. if i = 1 then Truthy else Falsy), eval_ms = (\<lambda>i. 0),
       sleep_late = (\<lambda>i. 40)\<rparr> 2000 ''Condition not met'') \<le> 0 + POLL_INTERVAL"
  by (simp add: waitForCondition_def waitForCondition_loop.simps POLL_INTERVAL_def)

text \<open>
  C7. When an evaluation of the condition throws, the call rejects with that very error at
  that evaluation: nothing is evaluated and nothing sleeps afterwards. This holds for every
  timeout under which the evaluation is reached at all.
\<close>

theorem waitForCondition_condition_throws:
  assumes "\<forall>j. j < k \<longrightarrow> condition w j = Falsy"
    and "condition w k = Throws e"
    and "int (poll_due w k) < timeout"
  shows "settled_as (waitForCondition w timeout errorMessage) = Rejected e
       \<and> events (waitForCondition w timeout errorMessage)
           = polls w k @ [Evaluate (poll_due w k)]
       \<and> evaluations (waitForCondition w timeout errorMessage) = Suc k
       \<and> finished (waitForCondition w timeout errorMessage) = poll_due w k + eval_ms w k"
proof -
  have falsy: "\<forall>j<k. condition w j = Falsy" using assms(1) by simp
  show ?thesis
    unfolding wait_throws_at [OF falsy assms(2,3), of errorMessage]
    by (simp add: evaluations_def evaluations_polls)
qed

theorem waitForCondition_condition_throws_witness:
  "settled_as (waitForCondition
      \<lparr>condition = (\<lambda>i. if i = 1 then Throws (JsError ''TypeError'' ''x is null'') else Falsy),
       eval_ms = (\<lambda>i. 0), sleep_late = (\<lambda>i. 0)\<rparr> 501 ''Condition not met'')
     = Rejected (JsError ''TypeError'' ''x is null'')
   \<and> events (waitForCondition
      \<lparr>condition = (\<lambda>i. if i = 1 then Throws (JsError ''TypeError'' ''x is null'') else Falsy),
       eval_ms = (\<lambda>i. 0), sleep_late = (\<lambda>i. 0)\<rparr> 501 ''Condition not met'')
     = [Evaluate 0, SleepFor 500, Evaluate 500]"
  using waitForCondition_condition_throws
    [of 1 "\<lparr>condition = (\<lambda>i. if i = 1 then Throws (JsError ''TypeError'' ''x is null'') else Falsy),
            eval_ms = (\<lambda>i. 0), sleep_late = (\<lambda>i. 0)\<rparr>"
        "JsError ''TypeError'' ''x is null''" 501 "''Condition not met''"]
  by (simp add: POLL_INTERVAL_def)

section \<open>Properties of waitForConsoleMessage\<close>

lemma console_settled_stays:
  "\<not> handler_on s \<Longrightarrow> \<not> timer_pending s \<Longrightarrow>
   foldl (console_step expectedMessage timeout) s evs = s"
proof (induction evs)
  case Nil
  show ?case by simp
next
  case (Cons ev evs)
  have "console_step expectedMessage timeout s ev = s"
    using Cons.prems by (cases ev) simp_all
  then show ?case using Cons by simp
qed

lemma console_step_other:
  "\<not> completes expectedMessage ev \<Longrightarrow>
   console_step expectedMessage timeout console_start ev = console_start"
  by (cases ev) (simp_all add: console_start_def)

lemma console_step_match:
  "matches expectedMessage text \<Longrightarrow>
   console_step expectedMessage timeout console_start (ConsoleMessage text) =
     \<lparr>handler_on = False, timer_pending = False, promise = Some (Fulfilled ())\<rparr>"
  by (simp add: console_start_def settle_def)

lemma console_step_timer:
  "console_step expectedMessage timeout console_start TimerFires =
     \<lparr>handler_on = False, timer_pending = False,
      promise = Some (Rejected (JsError ''Error''
        (''Console message '' @ [CHR 0x22] @ expected_to_string expectedMessage
           @ [CHR 0x22] @ '' not found within '' @ number_to_string timeout @ ''ms'')))\<rparr>"
  by (simp add: console_start_def settle_def)

lemma console_run:
  "waitForConsoleMessage expectedMessage timeout evs =
     (case find (completes expectedMessage) evs of
        None \<Rightarrow> console_start
      | Some (ConsoleMessage text) \<Rightarrow>
          \<lparr>handler_on = False, timer_pending = False, promise = Some (Fulfilled ())\<rparr>
      | Some TimerFires \<Rightarrow>
          \<lparr>handler_on = False, timer_pending = False,
           promise = Some (Rejected (JsError ''Error''
             (''Console message '' @ [CHR 0x22] @ expected_to_string expectedMessage
                @ [CHR 0x22] @ '' not found within '' @ number_to_string timeout @ ''ms'')))\<rparr>)"
  unfolding waitForConsoleMessage_def
proof (induction evs)
  case Nil
  show ?case by simp
next
  case (Cons ev evs)
  show ?case
  proof (cases "completes expectedMessage ev")
    case False
    then show ?thesis using Cons.IH by (simp add: console_step_other)
  next
    case True
    show ?thesis
    proof (cases ev)
      case (ConsoleMessage msg)
      with True have "matches expectedMessage msg" by simp
      then have "foldl (console_step expectedMessage timeout) console_start (ev # evs) =
          \<lparr>handler_on = False, timer_pending = False, promise = Some (Fulfilled ())\<rparr>"
        unfolding ConsoleMessage foldl_Cons
        by (simp only: console_step_match) (simp add: console_settled_stays)
      then show ?thesis using True ConsoleMessage by simp
    next
      case TimerFires
      have "foldl (console_step expectedMessage timeout) console_start (ev # evs) =
          \<lparr>handler_on = False, timer_pending = False,
           promise = Some (Rejected (JsError ''Error''
             (''Console message '' @ [CHR 0x22] @ expected_to_string expectedMessage
                @ [CHR 0x22] @ '' not found within '' @ number_to_string timeout @ ''ms'')))\<rparr>"
        unfolding TimerFires foldl_Cons
        by (simp only: console_step_timer) (simp add: console_settled_stays)
      then show ?thesis using TimerFires by simp
    qed
  qed
qed

text \<open>
  C8. Whatever events the page and the timer deliver, once the promise has settled the
  console handler is unsubscribed and the timer is no longer pending. The first event that
  completes the wait decides the outcome: a matching message resolves the promise, clears
  the timer and removes the handler; the timer rejects it and removes the handler. Before
  any such event both registrations are still in place.
\<close>

theorem waitForConsoleMessage_cleanup:
  "(promise (waitForConsoleMessage expectedMessage timeout evs) \<noteq> None \<longrightarrow>
      \<not> handler_on (waitForConsoleMessage expectedMessage timeout evs)
      \<and> \<not> timer_pending (waitForConsoleMessage expectedMessage timeout evs))
   \<and> ((\<exists>text. find (completes expectedMessage) evs = Some (ConsoleMessage text)) \<longrightarrow>
        waitForConsoleMessage expectedMessage timeout evs =
          \<lparr>handler_on = False, timer_pending = False, promise = Some (Fulfilled ())\<rparr>)
   \<and> (find (completes expectedMessage) evs = Some TimerFires \<longrightarrow>
        \<not> handler_on (waitForConsoleMessage expectedMessage timeout evs)
        \<and> \<not> timer_pending (waitForConsoleMessage expectedMessage timeout evs)
        \<and> promise (waitForConsoleMessage expectedMessage timeout evs) =
            Some (Rejected (JsError ''Error''
              (''Console message '' @ [CHR 0x22] @ expected_to_string expectedMessage
                 @ [CHR 0x22] @ '' not found within '' @ number_to_string timeout @ ''ms''))))
   \<and> (find (completes expectedMessage) evs = None \<longrightarrow>
        waitForConsoleMessage expectedMessage timeout evs = console_start)"
  unfolding console_run
  by (auto simp: console_start_def split: option.splits page_event.splits)

theorem waitForConsoleMessage_cleanup_witness:
  "waitForConsoleMessage (Text ''ready'') 1000
      [ConsoleMessage ''boot'', ConsoleMessage ''app ready!'', TimerFires,
       ConsoleMessage ''ready again'']
     = \<lparr>handler_on = False, timer_pending = False, promise = Some (Fulfilled ())\<rparr>
   \<and> \<not> handler_on (waitForConsoleMessage (Text ''ready'') 1000
        [ConsoleMessage ''boot'', TimerFires, ConsoleMessage ''app ready!''])
   \<and> \<not> timer_pending (waitForConsoleMessage (Text ''ready'') 1000
        [ConsoleMessage ''boot'', TimerFires, ConsoleMessage ''app ready!''])
   \<and> (\<exists>e. promise (waitForConsoleMessage (Text ''ready'') 1000
        [ConsoleMessage ''boot'', TimerFires, ConsoleMessage ''app ready!'']) = Some (Rejected e))"
  using waitForConsoleMessage_cleanup
      [of "Text ''ready''" 1000
          "[ConsoleMessage ''boot'', ConsoleMessage ''app ready!'', TimerFires,
            ConsoleMessage ''ready again'']"]
    waitForConsoleMessage_cleanup
      [of "Text ''ready''" 1000 "[ConsoleMessage ''boot'', TimerFires, ConsoleMessage ''app ready!'']"]
  by (simp add: matches_def)

section \<open>Properties of the authenticatedPage fixture\<close>

lemma await_resolves: "await c None rest log = rest (log @ [c])"
  by (simp add: await_def)

lemma await_rejects: "await c (Some e) rest log = (Rejected e, log @ [c])"
  by (simp add: await_def)

lemma authenticatedPage_use_rejects:
  assumes "reaches_ready w" and "use_rejects w (body w) = Some e"
  shows "authenticatedPage w =
           (Rejected e,
            [NewContext, NewPage, Goto,
             Login (or_default (TEST_USERNAME w) ''testuser'')
                   (or_default (TEST_PASSWORD w) ''testpass123''),
             WaitForURL, Use])"
  using assms
  by (simp add: authenticatedPage_def reaches_ready_def await_resolves await_rejects)

text \<open>
  C1. In every run in which login reaches the Ready state and \<open>use(page)\<close> resolves once
  the test body has finished, whether the body passed or threw, the fixture calls
  \<open>context.close()\<close> exactly once, as its last step, after \<open>use\<close>. The fixture has no
  \<open>try\<close> block of its own: the close step runs on the failing path because the runner
  resolves \<open>use\<close> there too (the lemma before this theorem shows what a rejected
  \<open>use\<close> would do).
\<close>

theorem authenticatedPage_closes_once:
  assumes "reaches_ready w" and "use_rejects w (body w) = None"
  shows "snd (authenticatedPage w) =
           [NewContext, NewPage, Goto,
            Login (or_default (TEST_USERNAME w) ''testuser'')
                  (or_default (TEST_PASSWORD w) ''testpass123''),
            WaitForURL, Use, ContextClose]
       \<and> count_list (snd (authenticatedPage w)) ContextClose = 1
       \<and> last (snd (authenticatedPage w)) = ContextClose
       \<and> fst (authenticatedPage w)
           = (case close_rejects w of None \<Rightarrow> Fulfilled () | Some e \<Rightarrow> Rejected e)"
  using assms
  by (cases "close_rejects w")
     (simp_all add: authenticatedPage_def reaches_ready_def await_resolves await_rejects)

theorem authenticatedPage_closes_once_witness:
  "authenticatedPage
     \<lparr>TEST_USERNAME = None, TEST_PASSWORD = Some ''s3cret'',
      newContext_rejects = None, newPage_rejects = None, goto_rejects = None,
      login_rejects = None, waitForURL_rejects = None,
      body = BodyThrew (JsError ''Error'' ''expect(received).toBe(expected)''),
      use_rejects = (\<lambda>b. None), close_rejects = None\<rparr>
   = (Fulfilled (),
      [NewContext, NewPage, Goto, Login ''testuser'' ''s3cret'', WaitForURL, Use, ContextClose])"
  using authenticatedPage_closes_once
    [of "\<lparr>TEST_USERNAME = None, TEST_PASSWORD = Some ''s3cret'',
      newContext_rejects = None, newPage_rejects = None, goto_rejects = None,
      login_rejects = None, waitForURL_rejects = None,
      body = BodyThrew (JsError ''Error'' ''expect(received).toBe(expected)''),
      use_rejects = (\<lambda>b. None), close_rejects = None\<rparr>"]
  by (simp add: reaches_ready_def or_default_def prod_eq_iff)

section \<open>Properties of getNotificationCount\<close>

text \<open>\<open>parseInt\<close> reads back the decimal digits that \<open>digits_of\<close> prints.\<close>

lemmas parseInt_eval = parseInt_def is_white_space_def digit_value_def in_radix_def
  radix_value_def number_value_def utf16_of_def Let_def

lemma below_ten: "d < 10 \<Longrightarrow> d \<in> {0, 1, 2, 3, 4, 5, 6, 7, 8, 9 :: nat}"
  by auto

lemma unit_of_digit_char: "d < 10 \<Longrightarrow> (of_char (digit_char d) :: nat) = 48 + d"
  using below_ten [of d] by (auto simp: digit_char_def)

lemma digit_value_unit: "d < 10 \<Longrightarrow> digit_value (48 + d) = Some d"
  by (simp add: digit_value_def)

lemma digit_unit_plain:
  "d < 10 \<Longrightarrow> \<not> is_white_space (48 + d) \<and> 48 + d \<noteq> 0x2D \<and> 48 + d \<noteq> 0x2B
     \<and> 48 + d \<noteq> 0x78 \<and> 48 + d \<noteq> 0x58"
  by (simp add: is_white_space_def)

lemma in_radix_digit_unit: "d < 10 \<Longrightarrow> in_radix 10 (48 + d)"
  by (simp add: in_radix_def digit_value_unit)

lemma digits_of_units: "\<forall>c \<in> set (utf16_of (digits_of n)). \<exists>d<10. c = 48 + d"
proof (induction n rule: digits_of.induct)
  case (1 n)
  show ?case
  proof (cases "n < 10")
    case True
    then show ?thesis
      by (subst digits_of.simps) (simp add: utf16_of_def unit_of_digit_char)
  next
    case False
    have "(of_char (digit_char (n mod 10)) :: nat) = 48 + n mod 10"
      by (rule unit_of_digit_char) simp
    moreover have "n mod 10 < 10" by simp
    ultimately have "\<exists>d<10. (of_char (digit_char (n mod 10)) :: nat) = 48 + d"
      by blast
    then show ?thesis
      using False "1.IH" by (subst digits_of.simps) (auto simp: utf16_of_def)
  qed
qed

lemma digits_of_nonempty: "utf16_of (digits_of n) \<noteq> []"
  by (subst digits_of.simps) (simp add: utf16_of_def)

lemma radix_value_snoc:
  "radix_value R (Z @ [c]) =
     radix_value R Z * int R + (case digit_value c of None \<Rightarrow> 0 | Some d \<Rightarrow> int d)"
  by (simp add: radix_value_def)

lemma radix_value_digits_of: "radix_value 10 (utf16_of (digits_of n)) = int n"
proof (induction n rule: digits_of.induct)
  case (1 n)
  show ?case
  proof (cases "n < 10")
    case True
    then show ?thesis
      by (subst digits_of.simps)
         (simp add: radix_value_def utf16_of_def unit_of_digit_char digit_value_unit)
  next
    case False
    have m: "n mod 10 < 10" by simp
    have last: "digit_value (of_char (digit_char (n mod 10))) = Some (n mod 10)"
      by (simp only: unit_of_digit_char [OF m] digit_value_unit [OF m])
    have split: "utf16_of (digits_of n) =
        utf16_of (digits_of (n div 10)) @ [of_char (digit_char (n mod 10))]"
      using False by (subst digits_of.simps) (simp add: utf16_of_def)
    have "radix_value 10 (utf16_of (digits_of n)) = int (n div 10) * 10 + int (n mod 10)"
      unfolding split radix_value_snoc last using "1.IH" [OF False] by simp
    also have "\<dots> = int n" by presburger
    finally show ?thesis .
  qed
qed

lemma digits_of_no_hex_prefix:
  "\<not> prefix (utf16_of ''0x'') (utf16_of (digits_of n))
   \<and> \<not> prefix (utf16_of ''0X'') (utf16_of (digits_of n))"
proof (cases "utf16_of (digits_of n)")
  case Nil
  then show ?thesis by (simp add: utf16_of_def)
next
  case outer: (Cons a as)
  show ?thesis
  proof (cases as)
    case Nil
    with outer show ?thesis by (simp add: utf16_of_def)
  next
    case (Cons b bs)
    have "b \<in> set (utf16_of (digits_of n))" using outer Cons by simp
    then obtain d where "d < 10" "b = 48 + d" using digits_of_units [of n] by blast
    then have "b \<noteq> 0x78 \<and> b \<noteq> 0x58" using digit_unit_plain [of d] by simp
    then show ?thesis using outer Cons by (auto simp: utf16_of_def)
  qed
qed

lemma takeWhile_digits_of:
  "takeWhile (in_radix 10) (utf16_of (digits_of n)) = utf16_of (digits_of n)"
  using digits_of_units [of n] by (auto simp: takeWhile_eq_all_conv in_radix_digit_unit)

lemma parseInt_digits_of:
  "parseInt (utf16_of (digits_of n)) = number_value 1 (int n)"
proof -
  have ne: "utf16_of (digits_of n) \<noteq> []" by (rule digits_of_nonempty)
  then obtain d where d: "d < 10" "hd (utf16_of (digits_of n)) = 48 + d"
    using digits_of_units [of n] by (cases "utf16_of (digits_of n)") auto
  have ws: "dropWhile is_white_space (utf16_of (digits_of n)) = utf16_of (digits_of n)"
    using ne d digit_unit_plain [OF d(1)] by (cases "utf16_of (digits_of n)") auto
  have sign: "hd (utf16_of (digits_of n)) \<noteq> 0x2D" "hd (utf16_of (digits_of n)) \<noteq> 0x2B"
    using d digit_unit_plain [OF d(1)] by auto
  have hex: "\<not> prefix (utf16_of ''0x'') (utf16_of (digits_of n))"
    "\<not> prefix (utf16_of ''0X'') (utf16_of (digits_of n))"
    using digits_of_no_hex_prefix [of n] by simp_all
  show ?thesis
    unfolding parseInt_def ws
    using sign hex ne
    by (simp add: Let_def takeWhile_digits_of radix_value_digits_of)
qed

lemma parseInt_zero_text: "parseInt (utf16_of ''0'') = Num 0"
  by (simp add: parseInt_eval)


lemma parseInt_digits_of_exact:
  assumes "n \<le> 2 ^ 53"
  shows "parseInt (utf16_of (digits_of n)) = Num (int n)"
proof -
  have "int n \<le> int (2 ^ 53)" using assms by (simp only: of_nat_le_iff)
  then have "int n \<le> 2 ^ 53" by simp
  then show ?thesis by (simp add: parseInt_digits_of number_value_def)
qed

text \<open>
  C10. When the badge is not visible the count is 0 and \<open>textContent\<close> is never called.
  When it is visible, the text is read: an absent text (\<open>null\<close>, or the empty string, which
  \<open>||\<close> treats alike) counts as \<open>''0''\<close> and gives 0, any other text gives what
  \<open>parseInt\<close> reads from it, and the decimal text of a number \<open>n\<close> up to \<open>2^53\<close>
  gives \<open>n\<close>.
\<close>

theorem getNotificationCount_badge:
  "(isVisible b = Fulfilled False \<longrightarrow>
      getNotificationCount b = (Fulfilled (Num 0), [IsVisible]))
   \<and> (isVisible b = Fulfilled True
        \<and> (textContent b = Fulfilled None \<or> textContent b = Fulfilled (Some [])) \<longrightarrow>
        getNotificationCount b = (Fulfilled (Num 0), [IsVisible, TextContent]))
   \<and> (\<forall>s. isVisible b = Fulfilled True \<and> textContent b = Fulfilled (Some s) \<and> s \<noteq> [] \<longrightarrow>
        getNotificationCount b = (Fulfilled (parseInt s), [IsVisible, TextContent]))
   \<and> (\<forall>n. n \<le> 2 ^ 53 \<and> isVisible b = Fulfilled True
            \<and> textContent b = Fulfilled (Some (utf16_of (digits_of n))) \<longrightarrow>
        getNotificationCount b = (Fulfilled (Num (int n)), [IsVisible, TextContent]))"
proof -
  have hidden: "isVisible b = Fulfilled False \<longrightarrow>
      getNotificationCount b = (Fulfilled (Num 0), [IsVisible])"
    by (simp add: getNotificationCount_def)
  have absent: "isVisible b = Fulfilled True
        \<and> (textContent b = Fulfilled None \<or> textContent b = Fulfilled (Some [])) \<longrightarrow>
        getNotificationCount b = (Fulfilled (Num 0), [IsVisible, TextContent])"
    by (auto simp: getNotificationCount_def or_default_def parseInt_zero_text)
  have shown: "\<forall>s. isVisible b = Fulfilled True \<and> textContent b = Fulfilled (Some s) \<and> s \<noteq> [] \<longrightarrow>
        getNotificationCount b = (Fulfilled (parseInt s), [IsVisible, TextContent])"
    by (simp add: getNotificationCount_def or_default_def)
  have decimal: "\<forall>n. n \<le> 2 ^ 53 \<and> isVisible b = Fulfilled True
            \<and> textContent b = Fulfilled (Some (utf16_of (digits_of n))) \<longrightarrow>
        getNotificationCount b = (Fulfilled (Num (int n)), [IsVisible, TextContent])"
    by (simp add: getNotificationCount_def or_default_def digits_of_nonempty
          parseInt_digits_of_exact)
  show ?thesis using hidden absent shown decimal by blast
qed

theorem getNotificationCount_badge_witness:
  "getNotificationCount
      \<lparr>isVisible = Fulfilled False, textContent = Fulfilled (Some (utf16_of ''7''))\<rparr>
     = (Fulfilled (Num 0), [IsVisible])
   \<and> getNotificationCount \<lparr>isVisible = Fulfilled True, textContent = Fulfilled None\<rparr>
     = (Fulfilled (Num 0), [IsVisible, TextContent])
   \<and> getNotificationCount \<lparr>isVisible = Fulfilled True, textContent = Fulfilled (Some [])\<rparr>
     = (Fulfilled (Num 0), [IsVisible, TextContent])
   \<and> getNotificationCount
      \<lparr>isVisible = Fulfilled True, textContent = Fulfilled (Some (utf16_of ''12''))\<rparr>
     = (Fulfilled (Num 12), [IsVisible, TextContent])
   \<and> getNotificationCount
      \<lparr>isVisible = Fulfilled True, textContent = Fulfilled (Some [0xA0, 0x37])\<rparr>
     = (Fulfilled (Num 7), [IsVisible, TextContent])
   \<and> getNotificationCount
      \<lparr>isVisible = Fulfilled True, textContent = Fulfilled (Some (utf16_of ''9+''))\<rparr>
     = (Fulfilled (Num 9), [IsVisible, TextContent])
   \<and> getNotificationCount
      \<lparr>isVisible = Fulfilled True, textContent = Fulfilled (Some (utf16_of ''new''))\<rparr>
     = (Fulfilled NaN, [IsVisible, TextContent])"
proof -
  have parsed: "parseInt (utf16_of ''12'') = Num 12" "parseInt [0xA0, 0x37] = Num 7"
    "parseInt (utf16_of ''9+'') = Num 9" "parseInt (utf16_of ''new'') = NaN"
    by (simp_all add: parseInt_eval)
  have texts: "utf16_of ''12'' \<noteq> []" "utf16_of ''9+'' \<noteq> []" "utf16_of ''new'' \<noteq> []"
    by (simp_all add: utf16_of_def)
  show ?thesis
    using getNotificationCount_badge
        [of "\<lparr>isVisible = Fulfilled False, textContent = Fulfilled (Some (utf16_of ''7''))\<rparr>"]
      getNotificationCount_badge
        [of "\<lparr>isVisible = Fulfilled True, textContent = Fulfilled None\<rparr>"]
      getNotificationCount_badge
        [of "\<lparr>isVisible = Fulfilled True, textContent = Fulfilled (Some [])\<rparr>"]
      getNotificationCount_badge
        [of "\<lparr>isVisible = Fulfilled True, textContent = Fulfilled (Some (utf16_of ''12''))\<rparr>"]
      getNotificationCount_badge
        [of "\<lparr>isVisible = Fulfilled True, textContent = Fulfilled (Some [0xA0, 0x37])\<rparr>"]
      getNotificationCount_badge
        [of "\<lparr>isVisible = Fulfilled True, textContent = Fulfilled (Some (utf16_of ''9+''))\<rparr>"]
      getNotificationCount_badge
        [of "\<lparr>isVisible = Fulfilled True, textContent = Fulfilled (Some (utf16_of ''new''))\<rparr>"]
    by (simp add: parsed texts)
qed

end
